theory Spec2Isabelle
  imports Complex_Main
begin

section \<open>The browser environment of the Header component\<close>

text \<open>
  The script block of \<^verbatim>\<open>components/Header.vue\<close> is three lines of behaviour:
  \<^verbatim>\<open>
  const scrolled = ref(false)
  onMounted(() => {
    window.addEventListener('scroll', () => {
      scrolled.value = window.scrollY > 0
    })
  })
  \<close>
  It runs against two pieces of environment: the browser's \<^verbatim>\<open>window\<close> (its scroll
  offset and its list of event listeners) and the framework's reactive cells and
  lifecycle hooks. Both are modelled below as far as the script uses them.

  The global \<^verbatim>\<open>window\<close> exists in a browser and does not exist where the framework renders
  the page on a server; naming it there raises a \<^verbatim>\<open>ReferenceError\<close>. This is the only way
  a statement of the script can fail, so it is the only error of the model.
\<close>

datatype error = ReferenceError

text \<open>
  A function object that can be registered as a listener. The script creates one kind
  only: the inner arrow function, which closes over the cell \<^verbatim>\<open>scrolled\<close>. Each
  evaluation of an arrow function gives a new object, so a closure carries the identity
  it was allocated with (\<open>fn_id\<close>) beside the address of the cell it captured.
\<close>

datatype callback = ScrollHandler (fn_id: nat) (captured: nat)

text \<open>An entry of an event target's listener list, with the fields the DOM keeps.\<close>

record listener =
  ltype :: string
  callback :: callback
  lcapture :: bool
  lpassive :: bool
  lonce :: bool

text \<open>The optional third argument of \<^verbatim>\<open>addEventListener\<close>; every member may be left out.\<close>

record listener_options =
  capture_opt :: "bool option"
  passive_opt :: "bool option"
  once_opt :: "bool option"

record window =
  scrollY :: real
  listeners :: "listener list"

text \<open>
  The whole state: the window (absent on a server), the store of reactive cells
  (\<^verbatim>\<open>ref\<close> objects holding a boolean, by address), and the two allocation counters.
  \<^verbatim>\<open>window.scrollY\<close> is a finite double; the script only compares it with zero, which is
  exact, so the offset is a real number here.
\<close>

record world =
  window :: "window option"
  refs :: "nat \<Rightarrow> bool"
  next_ref :: nat
  next_fn :: nat

subsection \<open>Registering listeners\<close>

text \<open>
  The DOM's default for \<open>passive\<close> when the caller does not give it: true for the four
  touch and wheel event types on a window, false for every other type.
\<close>

definition default_passive :: "string \<Rightarrow> bool" where
  "default_passive ty =
     (ty = ''touchstart'' \<or> ty = ''touchmove'' \<or> ty = ''wheel'' \<or> ty = ''mousewheel'')"

definition flatten_options :: "string \<Rightarrow> callback \<Rightarrow> listener_options option \<Rightarrow> listener" where
  "flatten_options ty cb opts =
     (case opts of
        None \<Rightarrow>
          \<lparr>ltype = ty, callback = cb, lcapture = False,
           lpassive = default_passive ty, lonce = False\<rparr>
      | Some os \<Rightarrow>
          \<lparr>ltype = ty, callback = cb,
           lcapture = (case capture_opt os of None \<Rightarrow> False | Some b \<Rightarrow> b),
           lpassive = (case passive_opt os of None \<Rightarrow> default_passive ty | Some b \<Rightarrow> b),
           lonce = (case once_opt os of None \<Rightarrow> False | Some b \<Rightarrow> b)\<rparr>)"

definition same_listener :: "listener \<Rightarrow> listener \<Rightarrow> bool" where
  "same_listener l l' =
     (ltype l = ltype l' \<and> callback l = callback l' \<and> lcapture l = lcapture l')"

text \<open>
  \<^verbatim>\<open>target.addEventListener(type, callback, options)\<close>: the listener is appended unless
  the list already holds one with the same type, callback and capture flag.
\<close>

definition addEventListener ::
  "string \<Rightarrow> callback \<Rightarrow> listener_options option \<Rightarrow> window \<Rightarrow> window" where
  "addEventListener ty cb opts win =
     (let l = flatten_options ty cb opts
      in if list_ex (same_listener l) (listeners win) then win
         else win\<lparr>listeners := listeners win @ [l]\<rparr>)"

section \<open>The script of the component\<close>

text \<open>\<^verbatim>\<open>ref(v)\<close>: a new reactive cell holding \<open>v\<close>; the result is its address.\<close>

definition ref :: "bool \<Rightarrow> world \<Rightarrow> nat \<times> world" where
  "ref v w =
     (next_ref w, w\<lparr>refs := (refs w)(next_ref w := v), next_ref := Suc (next_ref w)\<rparr>)"

text \<open>
  The inner arrow function, \<^verbatim>\<open>() => { scrolled.value = window.scrollY > 0 }\<close>, for the
  cell at address \<open>r\<close>.
\<close>

definition scroll_handler :: "nat \<Rightarrow> world \<Rightarrow> error + world" where
  "scroll_handler r w =
     (case window w of
        None \<Rightarrow> Inl ReferenceError
      | Some win \<Rightarrow> Inr (w\<lparr>refs := (refs w)(r := (0 < scrollY win))\<rparr>))"

text \<open>
  The outer arrow function, the one handed to \<^verbatim>\<open>onMounted\<close>: it evaluates the inner arrow
  function (a new function object) and registers it for \<^verbatim>\<open>'scroll'\<close> on the window. The
  call has two arguments; no options are given.
\<close>

definition mounted_hook :: "nat \<Rightarrow> world \<Rightarrow> error + world" where
  "mounted_hook r w =
     (case window w of
        None \<Rightarrow> Inl ReferenceError
      | Some win \<Rightarrow>
          Inr (w\<lparr>window := Some (addEventListener ''scroll'' (ScrollHandler (next_fn w) r) None win),
                 next_fn := Suc (next_fn w)\<rparr>))"

text \<open>
  A component instance, as far as the script shapes it: the cell \<^verbatim>\<open>scrolled\<close> and the
  hooks the script registered, by lifecycle phase. The script has one hook.
\<close>

datatype hook = AttachScrollListener

record component =
  scrolled :: nat
  mounted :: "hook list"
  unmounted :: "hook list"

text \<open>
  The setup of an instance: the top level of the script block. It allocates the cell
  with \<open>False\<close> and registers the hook for the mounted phase. Nothing is registered for
  the unmounted phase: the script calls neither \<^verbatim>\<open>onUnmounted\<close> nor
  \<^verbatim>\<open>onBeforeUnmount\<close>, and \<^verbatim>\<open>removeEventListener\<close> occurs nowhere.
\<close>

definition script_setup :: "world \<Rightarrow> component \<times> world" where
  "script_setup w =
     (let (r, w1) = ref False w
      in (\<lparr>scrolled = r, mounted = [AttachScrollListener], unmounted = []\<rparr>, w1))"

text \<open>\<^verbatim>\<open>scrolled.value\<close>, read.\<close>

definition flag :: "component \<Rightarrow> world \<Rightarrow> bool" where
  "flag c w = refs w (scrolled c)"

subsection \<open>The lifecycle the framework drives\<close>

fun run_hook :: "component \<Rightarrow> hook \<Rightarrow> world \<Rightarrow> error + world" where
  "run_hook c AttachScrollListener w = mounted_hook (scrolled c) w"

fun run_hooks :: "component \<Rightarrow> hook list \<Rightarrow> world \<Rightarrow> error + world" where
  "run_hooks c [] w = Inr w"
| "run_hooks c (h # hs) w =
     (case run_hook c h w of Inl e \<Rightarrow> Inl e | Inr w' \<Rightarrow> run_hooks c hs w')"

text \<open>
  Mounting runs the hooks of the mounted phase, unmounting those of the unmounted phase.
  The framework mounts in a browser only; a server render stops after the setup.
\<close>

definition mount :: "component \<Rightarrow> world \<Rightarrow> error + world" where
  "mount c w = run_hooks c (mounted c) w"

definition unmount :: "component \<Rightarrow> world \<Rightarrow> error + world" where
  "unmount c w = run_hooks c (unmounted c) w"

text \<open>Creating an instance and mounting it.\<close>

definition mount_header :: "world \<Rightarrow> error + component \<times> world" where
  "mount_header w =
     (let (c, w1) = script_setup w
      in case mount c w1 of Inl e \<Rightarrow> Inl e | Inr w2 \<Rightarrow> Inr (c, w2))"

text \<open>A full cycle: create, mount, unmount.\<close>

definition mount_unmount :: "world \<Rightarrow> error + component \<times> world" where
  "mount_unmount w =
     (case mount_header w of
        Inl e \<Rightarrow> Inl e
      | Inr (c, w2) \<Rightarrow> (case unmount c w2 of Inl e \<Rightarrow> Inl e | Inr w3 \<Rightarrow> Inr (c, w3)))"

text \<open>
  What the framework does with the component in either environment: the setup, and in a
  browser the mounted phase after it. On a server the hooks of the mounted phase are
  never called.
\<close>

definition render_header :: "world \<Rightarrow> error + component \<times> world" where
  "render_header w =
     (case window w of
        None \<Rightarrow> Inr (script_setup w)
      | Some win \<Rightarrow> mount_header w)"

subsection \<open>Scroll events\<close>

text \<open>
  Calling a listener runs its callback. An exception thrown by a callback is reported
  and the dispatch goes on with the state as it was.
\<close>

definition call_listener :: "listener \<Rightarrow> world \<Rightarrow> world" where
  "call_listener l w =
     (case scroll_handler (captured (callback l)) w of Inl e \<Rightarrow> w | Inr w' \<Rightarrow> w')"

definition remove_listener :: "listener \<Rightarrow> world \<Rightarrow> world" where
  "remove_listener l w =
     w\<lparr>window := map_option (\<lambda>win. win\<lparr>listeners := remove1 l (listeners win)\<rparr>) (window w)\<rparr>"

text \<open>
  The DOM's inner invoke over the listeners found on the target when the dispatch
  starts: a listener registered with \<open>once\<close> is removed just before its callback runs.
\<close>

fun inner_invoke :: "listener list \<Rightarrow> world \<Rightarrow> world" where
  "inner_invoke [] w = w"
| "inner_invoke (l # ls) w =
     inner_invoke ls (call_listener l (if lonce l then remove_listener l w else w))"

definition dispatch :: "string \<Rightarrow> world \<Rightarrow> world" where
  "dispatch ty w =
     (case window w of
        None \<Rightarrow> w
      | Some win \<Rightarrow> inner_invoke (filter (\<lambda>l. ltype l = ty) (listeners win)) w)"

text \<open>
  The page is scrolled to the vertical offset \<open>y\<close>: the browser updates
  \<^verbatim>\<open>window.scrollY\<close> and then delivers a \<^verbatim>\<open>'scroll'\<close> event to the listeners of the
  window.
\<close>

definition set_scrollY :: "real \<Rightarrow> world \<Rightarrow> world" where
  "set_scrollY y w = w\<lparr>window := map_option (\<lambda>win. win\<lparr>scrollY := y\<rparr>) (window w)\<rparr>"

definition scroll_event :: "real \<Rightarrow> world \<Rightarrow> world" where
  "scroll_event y w = dispatch ''scroll'' (set_scrollY y w)"

fun scroll_events :: "real list \<Rightarrow> world \<Rightarrow> world" where
  "scroll_events [] w = w"
| "scroll_events (y # ys) w = scroll_events ys (scroll_event y w)"

text \<open>The listeners of the window; none where there is no window.\<close>

definition listeners_of :: "world \<Rightarrow> listener list" where
  "listeners_of w = (case window w of None \<Rightarrow> [] | Some win \<Rightarrow> listeners win)"

definition scroll_listeners :: "world \<Rightarrow> listener list" where
  "scroll_listeners w = filter (\<lambda>l. ltype l = ''scroll'') (listeners_of w)"

text \<open>
  Every function object on the window was allocated before: the counter is above the
  identity of each registered callback.
\<close>

definition fresh_fns :: "world \<Rightarrow> bool" where
  "fresh_fns w = list_all (\<lambda>l. fn_id (callback l) < next_fn w) (listeners_of w)"

text \<open>
  The component's listener is on the window: a listener for \<^verbatim>\<open>'scroll'\<close> whose callback
  writes the component's cell and which a dispatch does not remove.
\<close>

definition attached :: "component \<Rightarrow> world \<Rightarrow> bool" where
  "attached c w =
     list_ex (\<lambda>l. ltype l = ''scroll'' \<and> captured (callback l) = scrolled c \<and> \<not> lonce l)
       (listeners_of w)"

subsection \<open>Concrete states\<close>

text \<open>A freshly loaded page in a browser, scrolled to offset \<open>y\<close>, before any script ran.\<close>

definition page :: "real \<Rightarrow> world" where
  "page y = \<lparr>window = Some \<lparr>scrollY = y, listeners = []\<rparr>,
             refs = (\<lambda>_. False), next_ref = 0, next_fn = 0\<rparr>"

text \<open>The state in which a server renders the page: no window.\<close>

definition server :: world where
  "server = \<lparr>window = None, refs = (\<lambda>_. False), next_ref = 0, next_fn = 0\<rparr>"

text \<open>The first instance created on such a page, and the page after that instance mounted.\<close>

definition first_header :: component where
  "first_header = \<lparr>scrolled = 0, mounted = [AttachScrollListener], unmounted = []\<rparr>"

definition mounted_page :: "real \<Rightarrow> world" where
  "mounted_page y =
     \<lparr>window = Some \<lparr>scrollY = y, listeners =
         [\<lparr>ltype = ''scroll'', callback = ScrollHandler 0 0,
           lcapture = False, lpassive = False, lonce = False\<rparr>]\<rparr>,
      refs = (\<lambda>_. False), next_ref = 1, next_fn = 1\<rparr>"

section \<open>The template of the component\<close>

text \<open>
  The rendered tree. Comments and the whitespace between tags are not part of it, as in
  the compiled template.
\<close>

datatype node = Element (tag: string) (attrs: "(string \<times> string) list") (children: "node list")
  | Text string

text \<open>
  The template block of \<^verbatim>\<open>Header.vue\<close>. A template is rendered from the instance and the
  reactive state; this one has static tags, attributes and texts only: no interpolation,
  no \<^verbatim>\<open>v-if\<close>, no bound \<^verbatim>\<open>:class\<close> or \<^verbatim>\<open>:style\<close>.
\<close>

definition template :: "component \<Rightarrow> world \<Rightarrow> node" where
  "template c w =
     Element ''header'' [(''class'', ''header'')]
      [Element ''div'' [(''class'', ''container'')]
        [Element ''div'' [(''class'', ''header-content'')]
          [Element ''div'' [(''class'', ''logo'')]
            [Element ''h1'' [(''class'', ''name'')] [Text ''Developer Portfolio''],
             Element ''p'' [(''class'', ''tagline'')]
               [Text ''Full Stack Developer | Problem Solver'']],
           Element ''nav'' [(''class'', ''nav'')]
            [Element ''ul'' [(''class'', ''nav-links'')]
              [Element ''li'' []
                [Element ''a'' [(''href'', ''#home''), (''class'', ''nav-link'')] [Text ''Home'']],
               Element ''li'' []
                [Element ''a'' [(''href'', ''#about''), (''class'', ''nav-link'')] [Text ''About'']],
               Element ''li'' []
                [Element ''a'' [(''href'', ''#projects''), (''class'', ''nav-link'')] [Text ''Projects'']],
               Element ''li'' []
                [Element ''a'' [(''href'', ''#skills''), (''class'', ''nav-link'')] [Text ''Skills'']],
               Element ''li'' []
                [Element ''a'' [(''href'', ''#contact''), (''class'', ''nav-link'')] [Text ''Contact'']]]],
           Element ''button'' [(''class'', ''cta-button'')] [Text ''Get in Touch'']]]]"

subsection \<open>Queries on a tree\<close>

text \<open>The node and everything below it, in document order.\<close>

fun descendants :: "node \<Rightarrow> node list" where
  "descendants (Text s) = [Text s]"
| "descendants (Element t as cs) = Element t as cs # concat (map descendants cs)"

fun text_content :: "node \<Rightarrow> string" where
  "text_content (Text s) = s"
| "text_content (Element t as cs) = concat (map text_content cs)"

fun attr :: "string \<Rightarrow> node \<Rightarrow> string option" where
  "attr k (Text s) = None"
| "attr k (Element t as cs) = map_of as k"

fun is_tag :: "string \<Rightarrow> node \<Rightarrow> bool" where
  "is_tag t (Text s) = False"
| "is_tag t (Element t' as cs) = (t' = t)"

text \<open>The value of a \<^verbatim>\<open>class\<close> attribute is a list of names separated by spaces.\<close>

fun class_names :: "string \<Rightarrow> string \<Rightarrow> string list" where
  "class_names cur [] = (if cur = [] then [] else [cur])"
| "class_names cur (ch # rest) =
     (if ch = CHR '' ''
      then (if cur = [] then class_names [] rest else cur # class_names [] rest)
      else class_names (cur @ [ch]) rest)"

definition classes :: "node \<Rightarrow> string list" where
  "classes n = (case attr ''class'' n of None \<Rightarrow> [] | Some v \<Rightarrow> class_names [] v)"

definition by_tag :: "string \<Rightarrow> node \<Rightarrow> node list" where
  "by_tag t n = filter (is_tag t) (descendants n)"

definition by_class :: "string \<Rightarrow> node \<Rightarrow> node list" where
  "by_class cl n = filter (\<lambda>m. cl \<in> set (classes m)) (descendants n)"

subsection \<open>The style block\<close>

text \<open>
  A rule of the scoped style block: the media condition it stands under (empty at the
  top level), the class its selector names, the pseudo-class and pseudo-element part of
  the selector, and its declarations. Every selector of the block is one class with an
  optional pseudo part.
\<close>

record css_rule =
  media :: string
  sel_class :: string
  sel_pseudo :: string
  declarations :: "(string \<times> string) list"

definition stylesheet :: "css_rule list" where
  "stylesheet =
    [\<lparr>media = [], sel_class = ''header'', sel_pseudo = [], declarations =
       [(''background'', ''linear-gradient(135deg, #667eea 0%, #764ba2 100%)''),
        (''color'', ''white''), (''padding'', ''1.5rem 0''), (''position'', ''sticky''),
        (''top'', ''0''), (''z-index'', ''100''),
        (''box-shadow'', ''0 2px 10px rgba(0, 0, 0, 0.1)'')]\<rparr>,
     \<lparr>media = [], sel_class = ''container'', sel_pseudo = [], declarations =
       [(''max-width'', ''1200px''), (''margin'', ''0 auto''), (''padding'', ''0 2rem'')]\<rparr>,
     \<lparr>media = [], sel_class = ''header-content'', sel_pseudo = [], declarations =
       [(''display'', ''flex''), (''justify-content'', ''space-between''),
        (''align-items'', ''center''), (''gap'', ''2rem'')]\<rparr>,
     \<lparr>media = [], sel_class = ''logo'', sel_pseudo = [], declarations = [(''flex'', ''1'')]\<rparr>,
     \<lparr>media = [], sel_class = ''name'', sel_pseudo = [], declarations =
       [(''margin'', ''0''), (''font-size'', ''1.5rem''), (''font-weight'', ''700''),
        (''letter-spacing'', ''-0.5px'')]\<rparr>,
     \<lparr>media = [], sel_class = ''tagline'', sel_pseudo = [], declarations =
       [(''margin'', ''0.25rem 0 0 0''), (''font-size'', ''0.9rem''), (''opacity'', ''0.9'')]\<rparr>,
     \<lparr>media = [], sel_class = ''nav'', sel_pseudo = [], declarations =
       [(''flex'', ''1''), (''display'', ''flex''), (''justify-content'', ''center'')]\<rparr>,
     \<lparr>media = [], sel_class = ''nav-links'', sel_pseudo = [], declarations =
       [(''list-style'', ''none''), (''display'', ''flex''), (''gap'', ''2rem''),
        (''margin'', ''0''), (''padding'', ''0'')]\<rparr>,
     \<lparr>media = [], sel_class = ''nav-link'', sel_pseudo = [], declarations =
       [(''color'', ''white''), (''text-decoration'', ''none''), (''font-weight'', ''500''),
        (''font-size'', ''0.95rem''), (''transition'', ''opacity 0.3s ease''),
        (''position'', ''relative'')]\<rparr>,
     \<lparr>media = [], sel_class = ''nav-link'', sel_pseudo = '':hover'', declarations =
       [(''opacity'', ''0.8'')]\<rparr>,
     \<lparr>media = [], sel_class = ''nav-link'', sel_pseudo = ''::after'', declarations =
       [(''content'', [CHR 0x27, CHR 0x27]), (''position'', ''absolute''),
        (''bottom'', ''-5px''), (''left'', ''0''), (''width'', ''0''), (''height'', ''2px''),
        (''background-color'', ''white''), (''transition'', ''width 0.3s ease'')]\<rparr>,
     \<lparr>media = [], sel_class = ''nav-link'', sel_pseudo = '':hover::after'', declarations =
       [(''width'', ''100%'')]\<rparr>,
     \<lparr>media = [], sel_class = ''cta-button'', sel_pseudo = [], declarations =
       [(''background-color'', ''white''), (''color'', ''#667eea''), (''border'', ''none''),
        (''padding'', ''0.75rem 1.5rem''), (''border-radius'', ''5px''),
        (''font-weight'', ''600''), (''cursor'', ''pointer''),
        (''transition'', ''all 0.3s ease''), (''white-space'', ''nowrap'')]\<rparr>,
     \<lparr>media = [], sel_class = ''cta-button'', sel_pseudo = '':hover'', declarations =
       [(''transform'', ''translateY(-2px)''),
        (''box-shadow'', ''0 4px 12px rgba(0, 0, 0, 0.2)'')]\<rparr>,
     \<lparr>media = ''(max-width: 768px)'', sel_class = ''header-content'', sel_pseudo = [],
      declarations = [(''flex-direction'', ''column''), (''gap'', ''1rem'')]\<rparr>,
     \<lparr>media = ''(max-width: 768px)'', sel_class = ''nav-links'', sel_pseudo = [],
      declarations = [(''gap'', ''1rem''), (''font-size'', ''0.85rem'')]\<rparr>,
     \<lparr>media = ''(max-width: 768px)'', sel_class = ''cta-button'', sel_pseudo = [],
      declarations = [(''width'', ''100%'')]\<rparr>,
     \<lparr>media = ''(max-width: 768px)'', sel_class = ''name'', sel_pseudo = [],
      declarations = [(''font-size'', ''1.25rem'')]\<rparr>]"

text \<open>
  The rules of the block that select a node: those whose class is among the node's. Which
  of them take effect at a moment depends further on the viewport and the pointer (the
  media condition and the pseudo part), never on the script's state.
\<close>

definition rules_for :: "node \<Rightarrow> css_rule list" where
  "rules_for n = filter (\<lambda>r. sel_class r \<in> set (classes n)) stylesheet"

text \<open>What the component shows: its tree, and for every node of it the rules that select it.\<close>

definition view :: "component \<Rightarrow> world \<Rightarrow> node \<times> css_rule list list" where
  "view c w = (template c w, map rules_for (descendants (template c w)))"

section \<open>The framework configuration\<close>

text \<open>
  \<^verbatim>\<open>nuxt.config.ts\<close> exports one object literal, passed through the framework's
  \<^verbatim>\<open>defineNuxtConfig\<close>, which returns its argument (it exists for the type of the
  literal).
\<close>

record devtools_config =
  enabled :: bool

record head_script =
  src :: string
  defer_attr :: bool

record head_config =
  script :: "head_script list"

record app_config =
  head :: head_config

record dev_server_config =
  port :: nat

record nuxt_config =
  compatibilityDate :: string
  devtools :: devtools_config
  modules :: "string list"
  app :: app_config
  devServer :: dev_server_config

definition defineNuxtConfig :: "nuxt_config \<Rightarrow> nuxt_config" where
  "defineNuxtConfig config = config"

definition nuxt_config_export :: nuxt_config where
  "nuxt_config_export =
     defineNuxtConfig
       \<lparr>compatibilityDate = ''2025-07-15'',
        devtools = \<lparr>enabled = True\<rparr>,
        modules = [''@nuxt/ui''],
        app = \<lparr>head = \<lparr>script =
          [\<lparr>src = ''https://cdn.tailwindcss.com'', defer_attr = True\<rparr>]\<rparr>\<rparr>,
        devServer = \<lparr>port = 4200\<rparr>\<rparr>"

section \<open>Properties of the script\<close>

subsection \<open>Setup and mount\<close>

lemma script_setup_eq:
  "script_setup w =
     (\<lparr>scrolled = next_ref w, mounted = [AttachScrollListener], unmounted = []\<rparr>,
      w\<lparr>refs := (refs w)(next_ref w := False), next_ref := Suc (next_ref w)\<rparr>)"
  by (simp add: script_setup_def ref_def)

lemma no_same_listener:
  assumes "list_all (\<lambda>l. fn_id (callback l) < n) ls"
  shows "\<not> list_ex (same_listener (flatten_options ty (ScrollHandler n r) opts)) ls"
proof -
  have cb: "callback (flatten_options ty (ScrollHandler n r) opts) = ScrollHandler n r"
    by (simp add: flatten_options_def split: option.splits)
  have "\<not> same_listener (flatten_options ty (ScrollHandler n r) opts) l" if "l \<in> set ls" for l
  proof
    assume "same_listener (flatten_options ty (ScrollHandler n r) opts) l"
    then have "callback l = ScrollHandler n r"
      using cb by (simp add: same_listener_def)
    then have "fn_id (callback l) = n" by simp
    moreover have "fn_id (callback l) < n"
      using assms that by (simp add: list_all_iff)
    ultimately show False by simp
  qed
  then show ?thesis by (simp add: list_ex_iff)
qed

lemma mounted_hook_client:
  assumes "window w = Some win" and "fresh_fns w"
  shows "mounted_hook r w =
     Inr (w\<lparr>window := Some (win\<lparr>listeners := listeners win @
              [\<lparr>ltype = ''scroll'', callback = ScrollHandler (next_fn w) r,
                lcapture = False, lpassive = False, lonce = False\<rparr>]\<rparr>),
            next_fn := Suc (next_fn w)\<rparr>)"
proof -
  from assms have "list_all (\<lambda>l. fn_id (callback l) < next_fn w) (listeners win)"
    by (simp add: fresh_fns_def listeners_of_def)
  then have "\<not> list_ex (same_listener (flatten_options ''scroll'' (ScrollHandler (next_fn w) r) None))
               (listeners win)"
    by (rule no_same_listener)
  then show ?thesis
    using assms(1)
    by (simp add: mounted_hook_def addEventListener_def Let_def flatten_options_def
        default_passive_def)
qed

lemma mount_header_client:
  assumes "window w = Some win" and "fresh_fns w"
  shows "mount_header w =
     Inr (\<lparr>scrolled = next_ref w, mounted = [AttachScrollListener], unmounted = []\<rparr>,
          w\<lparr>window := Some (win\<lparr>listeners := listeners win @
              [\<lparr>ltype = ''scroll'', callback = ScrollHandler (next_fn w) (next_ref w),
                lcapture = False, lpassive = False, lonce = False\<rparr>]\<rparr>),
            refs := (refs w)(next_ref w := False),
            next_ref := Suc (next_ref w),
            next_fn := Suc (next_fn w)\<rparr>)"
proof -
  let ?w1 = "w\<lparr>refs := (refs w)(next_ref w := False), next_ref := Suc (next_ref w)\<rparr>"
  have "window ?w1 = Some win" "fresh_fns ?w1"
    using assms by (simp_all add: fresh_fns_def listeners_of_def)
  from mounted_hook_client [OF this] show ?thesis
    by (simp add: mount_header_def script_setup_eq mount_def)
qed

lemma mount_header_server:
  "window w = None \<Longrightarrow> mount_header w = Inl ReferenceError"
  by (simp add: mount_header_def script_setup_eq mount_def mounted_hook_def)

lemma mount_header_component:
  assumes "mount_header w = Inr (c, w2)"
  shows "c = \<lparr>scrolled = next_ref w, mounted = [AttachScrollListener], unmounted = []\<rparr>"
  using assms
  by (auto simp: mount_header_def script_setup_eq split: sum.splits)

lemma mount_header_ok: "window w = Some win \<Longrightarrow> \<not> isl (mount_header w)"
  by (simp add: mount_header_def script_setup_eq mount_def mounted_hook_def)

lemma render_header_ok: "\<not> isl (render_header w)"
  by (cases "window w") (simp_all add: render_header_def mount_header_ok)

lemma unmount_nothing: "unmounted c = [] \<Longrightarrow> unmount c w = Inr w"
  by (simp add: unmount_def)

lemma mount_unmount_eq:
  "mount_unmount w = mount_header w"
proof (cases "mount_header w")
  case (Inl e)
  then show ?thesis by (simp add: mount_unmount_def)
next
  case (Inr p)
  obtain c w2 where p: "p = (c, w2)" by (cases p)
  with Inr have "unmounted c = []"
    using mount_header_component [of w c w2] by simp
  with Inr p show ?thesis
    by (simp add: mount_unmount_def unmount_nothing)
qed

subsection \<open>Calling listeners\<close>

lemma call_listener_window [simp]: "window (call_listener l w) = window w"
  by (simp add: call_listener_def scroll_handler_def split: option.splits)

lemma call_listener_counters [simp]:
  "next_ref (call_listener l w) = next_ref w" "next_fn (call_listener l w) = next_fn w"
  by (simp_all add: call_listener_def scroll_handler_def split: option.splits)

lemma call_listener_refs:
  "window w = Some win \<Longrightarrow>
   refs (call_listener l w) = (refs w)(captured (callback l) := (0 < scrollY win))"
  by (simp add: call_listener_def scroll_handler_def)

lemma inner_invoke_refs:
  assumes "window w = Some win"
  shows "refs (inner_invoke ls w) r =
     (if r \<in> set (map (captured \<circ> callback) ls) then 0 < scrollY win else refs w r)"
  using assms
proof (induction ls arbitrary: w win)
  case Nil
  then show ?case by simp
next
  case (Cons l ls)
  let ?w' = "call_listener l (if lonce l then remove_listener l w else w)"
  from Cons.prems have "\<exists>win'. window ?w' = Some win' \<and> scrollY win' = scrollY win"
    by (simp add: remove_listener_def)
  then obtain win' where w': "window ?w' = Some win'" and y: "scrollY win' = scrollY win"
    by blast
  have r: "refs ?w' = (refs w)(captured (callback l) := (0 < scrollY win))"
    using Cons.prems by (simp add: call_listener_refs remove_listener_def)
  show ?case
    using Cons.IH [OF w'] y r by auto
qed

lemma listeners_of_remove [simp]:
  "listeners_of (remove_listener l w) = remove1 l (listeners_of w)"
  by (simp add: listeners_of_def remove_listener_def split: option.splits)

lemma listeners_of_call [simp]: "listeners_of (call_listener l w) = listeners_of w"
  by (simp add: listeners_of_def)

lemma inner_invoke_keeps:
  assumes "l0 \<in> set (listeners_of w)" and "\<not> lonce l0"
  shows "l0 \<in> set (listeners_of (inner_invoke ls w))"
  using assms
proof (induction ls arbitrary: w)
  case Nil
  then show ?case by simp
next
  case (Cons l ls)
  have "l0 \<in> set (listeners_of (call_listener l (if lonce l then remove_listener l w else w)))"
  proof (cases "lonce l")
    case True
    with Cons.prems(2) have "l0 \<noteq> l" by auto
    with True Cons.prems(1) show ?thesis by (simp add: in_set_remove1)
  next
    case False
    with Cons.prems(1) show ?thesis by simp
  qed
  from Cons.IH [OF this Cons.prems(2)] show ?case by simp
qed

lemma inner_invoke_counters:
  "next_ref (inner_invoke ls w) = next_ref w \<and> next_fn (inner_invoke ls w) = next_fn w"
  by (induction ls arbitrary: w) (simp_all add: remove_listener_def)

lemma inner_invoke_scrollY:
  "map_option scrollY (window (inner_invoke ls w)) = map_option scrollY (window w)"
  by (induction ls arbitrary: w) (simp_all add: remove_listener_def option.map_comp comp_def)

lemma inner_invoke_subset:
  "set (listeners_of (inner_invoke ls w)) \<subseteq> set (listeners_of w)"
proof (induction ls arbitrary: w)
  case Nil
  then show ?case by simp
next
  case (Cons l ls)
  have "set (listeners_of (call_listener l (if lonce l then remove_listener l w else w)))
          \<subseteq> set (listeners_of w)"
    using set_remove1_subset [of l "listeners_of w"] by simp
  with Cons.IH [of "call_listener l (if lonce l then remove_listener l w else w)"]
  show ?case by simp
qed

lemma inner_invoke_listeners:
  "\<not> list_ex lonce ls \<Longrightarrow> listeners_of (inner_invoke ls w) = listeners_of w"
  by (induction ls arbitrary: w) simp_all

subsection \<open>What a scroll event leaves alone\<close>

lemma listeners_of_set_scrollY [simp]: "listeners_of (set_scrollY y w) = listeners_of w"
  by (simp add: listeners_of_def set_scrollY_def split: option.splits)

lemma scroll_event_unfold:
  "scroll_event y w =
     (case window w of
        None \<Rightarrow> w
      | Some win \<Rightarrow> inner_invoke (scroll_listeners w) (set_scrollY y w))"
  by (simp add: scroll_event_def dispatch_def set_scrollY_def scroll_listeners_def
      listeners_of_def split: option.splits)

lemma scroll_event_counters:
  "next_ref (scroll_event y w) = next_ref w \<and> next_fn (scroll_event y w) = next_fn w"
  by (simp add: scroll_event_unfold inner_invoke_counters set_scrollY_def split: option.splits)

lemma scroll_event_scrollY:
  "map_option scrollY (window (scroll_event y w)) = map_option (\<lambda>win. y) (window w)"
  by (simp add: scroll_event_unfold inner_invoke_scrollY set_scrollY_def split: option.splits)

lemma scroll_event_subset:
  "set (listeners_of (scroll_event y w)) \<subseteq> set (listeners_of w)"
  using inner_invoke_subset [of "scroll_listeners w" "set_scrollY y w"]
  by (simp add: scroll_event_unfold split: option.splits)

lemma scroll_event_listeners:
  "\<not> list_ex lonce (scroll_listeners w) \<Longrightarrow> listeners_of (scroll_event y w) = listeners_of w"
  by (simp add: scroll_event_unfold inner_invoke_listeners split: option.splits)

lemma scroll_event_refs_other:
  assumes "r \<notin> set (map (captured \<circ> callback) (scroll_listeners w))"
  shows "refs (scroll_event y w) r = refs w r"
proof (cases "window w")
  case None
  then show ?thesis by (simp add: scroll_event_unfold)
next
  case (Some win)
  then have "window (set_scrollY y w) = Some (win\<lparr>scrollY := y\<rparr>)"
    by (simp add: set_scrollY_def)
  from inner_invoke_refs [OF this, of "scroll_listeners w" r] assms Some show ?thesis
    by (simp add: scroll_event_unfold set_scrollY_def)
qed

subsection \<open>Scroll events on a window that holds the component's listener\<close>

lemma attachedD:
  assumes "attached c w"
  obtains win l where "window w = Some win" and "l \<in> set (listeners win)"
    and "ltype l = ''scroll''" and "captured (callback l) = scrolled c" and "\<not> lonce l"
proof (cases "window w")
  case None
  with assms show thesis by (simp add: attached_def listeners_of_def)
next
  case (Some win)
  with assms have "\<exists>l. l \<in> set (listeners win) \<and>
      ltype l = ''scroll'' \<and> captured (callback l) = scrolled c \<and> \<not> lonce l"
    by (simp add: attached_def listeners_of_def list_ex_iff) blast
  with that Some show thesis by blast
qed

lemma scroll_event_flag:
  assumes "attached c w"
  shows "flag c (scroll_event y w) = (0 < y)"
proof -
  from assms obtain win l where win: "window w = Some win" and l: "l \<in> set (listeners win)"
    and ty: "ltype l = ''scroll''" and cap: "captured (callback l) = scrolled c"
    by (rule attachedD)
  let ?w = "w\<lparr>window := Some (win\<lparr>scrollY := y\<rparr>)\<rparr>"
  let ?ls = "filter (\<lambda>l. ltype l = ''scroll'') (listeners win)"
  have ev: "scroll_event y w = inner_invoke ?ls ?w"
    using win by (simp add: scroll_event_def set_scrollY_def dispatch_def)
  have "scrolled c \<in> set (map (captured \<circ> callback) ?ls)"
    using l ty cap by force
  moreover have "window ?w = Some (win\<lparr>scrollY := y\<rparr>)" by simp
  ultimately have "refs (inner_invoke ?ls ?w) (scrolled c) = (0 < scrollY (win\<lparr>scrollY := y\<rparr>))"
    by (simp only: inner_invoke_refs if_True)
  then show ?thesis by (simp add: ev flag_def)
qed

lemma scroll_event_attached:
  assumes "attached c w"
  shows "attached c (scroll_event y w)"
proof -
  from assms obtain win l where win: "window w = Some win" and l: "l \<in> set (listeners win)"
    and ty: "ltype l = ''scroll''" and cap: "captured (callback l) = scrolled c"
    and once: "\<not> lonce l"
    by (rule attachedD)
  let ?w = "w\<lparr>window := Some (win\<lparr>scrollY := y\<rparr>)\<rparr>"
  let ?ls = "filter (\<lambda>l. ltype l = ''scroll'') (listeners win)"
  have ev: "scroll_event y w = inner_invoke ?ls ?w"
    using win by (simp add: scroll_event_def set_scrollY_def dispatch_def)
  have "l \<in> set (listeners_of ?w)"
    using l by (simp add: listeners_of_def)
  then have "l \<in> set (listeners_of (inner_invoke ?ls ?w))"
    using once by (rule inner_invoke_keeps)
  then show ?thesis
    using ty cap once by (auto simp: ev attached_def list_ex_iff)
qed

lemma scroll_events_attached:
  "attached c w \<Longrightarrow> attached c (scroll_events ys w)"
  by (induction ys arbitrary: w) (simp_all add: scroll_event_attached)

lemma scroll_events_snoc:
  "scroll_events (ys @ [y]) w = scroll_event y (scroll_events ys w)"
  by (induction ys arbitrary: w) simp_all

lemma mount_header_attached:
  assumes "fresh_fns w" and "mount_header w = Inr (c, w2)"
  shows "attached c w2"
proof (cases "window w")
  case None
  with assms(2) show ?thesis by (simp add: mount_header_server)
next
  case (Some win)
  from mount_header_client [OF Some assms(1)] assms(2) show ?thesis
    by (auto simp: attached_def listeners_of_def)
qed

subsection \<open>The allocation invariant\<close>

text \<open>
  \<open>fresh_fns\<close> holds of a page without listeners and is kept by every operation: the
  mount allocates the identity it registers, and a scroll event registers nothing.
\<close>

lemma fresh_fns_scroll_event:
  assumes "fresh_fns w"
  shows "fresh_fns (scroll_event y w)"
  using assms scroll_event_subset [of y w]
  by (auto simp: fresh_fns_def list_all_iff scroll_event_counters)

lemma fresh_fns_mount_header:
  assumes "fresh_fns w" and "mount_header w = Inr (c, w2)"
  shows "fresh_fns w2"
proof (cases "window w")
  case None
  with assms(2) show ?thesis by (simp add: mount_header_server)
next
  case (Some win)
  from mount_header_client [OF Some assms(1)] assms Some show ?thesis
    by (auto simp: fresh_fns_def listeners_of_def list_all_iff less_Suc_eq)
qed

subsection \<open>The freshly loaded page\<close>

lemma fresh_fns_page: "fresh_fns (page y)"
  by (simp add: fresh_fns_def listeners_of_def page_def)

lemma mount_header_page: "mount_header (page y) = Inr (first_header, mounted_page y)"
proof -
  have "window (page y) = Some \<lparr>scrollY = y, listeners = []\<rparr>"
    by (simp add: page_def)
  from mount_header_client [OF this fresh_fns_page] show ?thesis
    by (simp add: page_def first_header_def mounted_page_def fun_upd_idem)
qed

section \<open>The claims\<close>

text \<open>
  Claim C1. After the component has mounted, every scroll event sets the flag to whether
  the vertical offset of that event is above zero: for any events \<open>ys\<close> delivered since
  the mount, the event with offset \<open>y\<close> leaves the flag equal to \<open>0 < y\<close>, and a
  following event with offset zero leaves it false.
\<close>

theorem scroll_event_sets_flag:
  assumes "fresh_fns w" and "mount_header w = Inr (c, w2)"
  shows "flag c (scroll_event y (scroll_events ys w2)) = (0 < y) \<and>
         \<not> flag c (scroll_event 0 (scroll_event y (scroll_events ys w2)))"
proof -
  have "attached c w2"
    using assms by (rule mount_header_attached)
  then have a: "attached c (scroll_events ys w2)"
    by (rule scroll_events_attached)
  then have "attached c (scroll_event y (scroll_events ys w2))"
    by (rule scroll_event_attached)
  then have "flag c (scroll_event 0 (scroll_event y (scroll_events ys w2))) = ((0::real) < 0)"
    by (rule scroll_event_flag)
  with scroll_event_flag [OF a, of y] show ?thesis by simp
qed

theorem scroll_event_sets_flag_witness:
  "fresh_fns (page 0) \<and> mount_header (page 0) = Inr (first_header, mounted_page 0) \<and>
   flag first_header (scroll_event 120 (scroll_events [300, 0] (mounted_page 0))) \<and>
   \<not> flag first_header (scroll_event 0 (scroll_event 120 (scroll_events [300, 0] (mounted_page 0))))"
  using scroll_event_sets_flag [OF fresh_fns_page [of 0] mount_header_page [of 0],
      where y = 120 and ys = "[300, 0]"]
    fresh_fns_page [of 0] mount_header_page [of 0]
  by simp

text \<open>
  Claim C2, as stated, fails: the listener the mount registers is not passive. The call
  of \<^verbatim>\<open>addEventListener\<close> has no options argument, and the default for the type
  \<^verbatim>\<open>'scroll'\<close> is false.
\<close>

theorem mount_listener_not_passive:
  "mount_header (page 0) = Inr (first_header, mounted_page 0) \<and>
   map lpassive (scroll_listeners (mounted_page 0)) = [False]"
  using mount_header_page [of 0]
  by (simp add: scroll_listeners_def listeners_of_def mounted_page_def)

text \<open>
  Claim C2, amended. On mount the component appends its scroll listener to the window's
  list with no options given, so the listener has the defaults: no capture, not passive,
  not once.
\<close>

theorem mount_registers_with_defaults:
  assumes "fresh_fns w" and "mount_header w = Inr (c, w2)"
  shows "listeners_of w2 =
           listeners_of w @ [flatten_options ''scroll'' (ScrollHandler (next_fn w) (scrolled c)) None] \<and>
         flatten_options ''scroll'' (ScrollHandler (next_fn w) (scrolled c)) None =
           \<lparr>ltype = ''scroll'', callback = ScrollHandler (next_fn w) (scrolled c),
            lcapture = False, lpassive = False, lonce = False\<rparr>"
proof (cases "window w")
  case None
  with assms(2) show ?thesis by (simp add: mount_header_server)
next
  case (Some win)
  from mount_header_client [OF Some assms(1)] assms(2) Some show ?thesis
    by (auto simp: listeners_of_def flatten_options_def default_passive_def)
qed

theorem mount_registers_with_defaults_witness:
  "fresh_fns (page 0) \<and> mount_header (page 0) = Inr (first_header, mounted_page 0) \<and>
   listeners_of (mounted_page 0) =
     [\<lparr>ltype = ''scroll'', callback = ScrollHandler 0 0,
       lcapture = False, lpassive = False, lonce = False\<rparr>]"
  using mount_registers_with_defaults [OF fresh_fns_page [of 0] mount_header_page [of 0]]
    fresh_fns_page [of 0] mount_header_page [of 0]
  by (simp add: page_def listeners_of_def first_header_def)

text \<open>
  Claim C3, as stated, fails: after a full cycle of mount and unmount on a page without
  listeners, the window holds the component's scroll listener.
\<close>

theorem listener_left_after_unmount:
  "mount_unmount (page 0) = Inr (first_header, mounted_page 0) \<and>
   scroll_listeners (page 0) = [] \<and>
   scroll_listeners (mounted_page 0) =
     [\<lparr>ltype = ''scroll'', callback = ScrollHandler 0 0,
       lcapture = False, lpassive = False, lonce = False\<rparr>] \<and>
   set (scroll_listeners (mounted_page 0)) \<noteq> set (scroll_listeners (page 0))"
  using mount_header_page [of 0]
  by (simp add: mount_unmount_eq scroll_listeners_def listeners_of_def mounted_page_def page_def)

text \<open>
  Claim C3, amended. The component registers nothing for the unmounted phase, so a full
  cycle of mount and unmount leaves the window with the listeners it had before and the
  component's scroll listener after them; scroll events after the unmount still write the
  flag.
\<close>

theorem unmount_keeps_listener:
  assumes "fresh_fns w" and "mount_unmount w = Inr (c, w3)"
  shows "unmounted c = [] \<and>
         listeners_of w3 =
           listeners_of w @ [\<lparr>ltype = ''scroll'', callback = ScrollHandler (next_fn w) (scrolled c),
                               lcapture = False, lpassive = False, lonce = False\<rparr>] \<and>
         flag c (scroll_event y w3) = (0 < y)"
proof -
  from assms(2) have m: "mount_header w = Inr (c, w3)"
    by (simp add: mount_unmount_eq)
  then have c: "c = \<lparr>scrolled = next_ref w, mounted = [AttachScrollListener], unmounted = []\<rparr>"
    by (rule mount_header_component)
  have "attached c w3"
    using assms(1) m by (rule mount_header_attached)
  then have "flag c (scroll_event y w3) = (0 < y)"
    by (rule scroll_event_flag)
  moreover have "listeners_of w3 =
      listeners_of w @ [\<lparr>ltype = ''scroll'', callback = ScrollHandler (next_fn w) (scrolled c),
                          lcapture = False, lpassive = False, lonce = False\<rparr>]"
  proof (cases "window w")
    case None
    with m show ?thesis by (simp add: mount_header_server)
  next
    case (Some win)
    from mount_header_client [OF Some assms(1)] m Some show ?thesis
      by (auto simp: listeners_of_def)
  qed
  ultimately show ?thesis using c by simp
qed

theorem unmount_keeps_listener_witness:
  "fresh_fns (page 0) \<and> mount_unmount (page 0) = Inr (first_header, mounted_page 0) \<and>
   unmounted first_header = [] \<and>
   listeners_of (mounted_page 0) =
     [\<lparr>ltype = ''scroll'', callback = ScrollHandler 0 0,
       lcapture = False, lpassive = False, lonce = False\<rparr>] \<and>
   flag first_header (scroll_event 80 (mounted_page 0))"
proof -
  have m: "mount_unmount (page 0) = Inr (first_header, mounted_page 0)"
    by (simp add: mount_unmount_eq mount_header_page)
  from unmount_keeps_listener [OF fresh_fns_page [of 0] m, where y = 80] m fresh_fns_page [of 0]
  show ?thesis
    by (simp add: page_def listeners_of_def first_header_def)
qed

text \<open>
  Claim C4. What the component shows does not depend on the flag: the tree and the style
  rules that select its nodes are the same in any two states, in particular in two states
  that differ in the value of \<^verbatim>\<open>scrolled\<close> only.
\<close>

theorem view_ignores_scrolled:
  "view c w = view c w' \<and>
   view c (w\<lparr>refs := (refs w)(scrolled c := True)\<rparr>) =
     view c (w\<lparr>refs := (refs w)(scrolled c := False)\<rparr>)"
  by (simp add: view_def template_def)

text \<open>
  Claim C5. The template is a \<^verbatim>\<open>header\<close> element that holds the logo block with the name
  and the tagline, one button (the call to action), and a navigation list whose links
  point to \<^verbatim>\<open>#home\<close>, \<^verbatim>\<open>#about\<close>, \<^verbatim>\<open>#projects\<close>, \<^verbatim>\<open>#skills\<close> and \<^verbatim>\<open>#contact\<close>, in this
  order; the header has no other link.
\<close>

theorem header_structure:
  "is_tag ''header'' (template c w) \<and>
   map (map text_content \<circ> children) (by_class ''logo'' (template c w)) =
     [[''Developer Portfolio'', ''Full Stack Developer | Problem Solver'']] \<and>
   map text_content (by_tag ''button'' (template c w)) = [''Get in Touch''] \<and>
   map classes (by_tag ''button'' (template c w)) = [[''cta-button'']] \<and>
   map (attr ''href'')
     (concat (map (by_tag ''a'') (concat (map (by_tag ''ul'') (by_tag ''nav'' (template c w)))))) =
     [Some ''#home'', Some ''#about'', Some ''#projects'', Some ''#skills'', Some ''#contact''] \<and>
   map (attr ''href'') (by_tag ''a'' (template c w)) =
     [Some ''#home'', Some ''#about'', Some ''#projects'', Some ''#skills'', Some ''#contact'']"
  by (simp add: template_def by_tag_def by_class_def classes_def)

text \<open>
  Claim C6. In a browser, where every registered callback was allocated before, creating
  and mounting the component succeeds; it appends exactly one listener, for
  \<^verbatim>\<open>'scroll'\<close>, to the window's list, leaves the scroll offset alone and writes no cell but
  the new one. Unmounting succeeds, and so does every later call of the handler. In any
  state \<open>w'\<close>, with or without a window, what the framework runs of the component does
  not fail.
\<close>

theorem mount_only_registers_listener:
  assumes "window w = Some win" and "fresh_fns w"
  shows "(case mount_header w of
            Inl e \<Rightarrow> False
          | Inr (c, w2) \<Rightarrow>
              listeners_of w2 =
                listeners_of w @ [\<lparr>ltype = ''scroll'', callback = ScrollHandler (next_fn w) (scrolled c),
                                    lcapture = False, lpassive = False, lonce = False\<rparr>] \<and>
              map_option scrollY (window w2) = map_option scrollY (window w) \<and>
              (\<forall>r. r \<noteq> scrolled c \<longrightarrow> refs w2 r = refs w r) \<and>
              scrolled c = next_ref w \<and>
              unmount c w2 = Inr w2 \<and>
              (\<forall>y ys. \<not> isl (scroll_handler (scrolled c) (set_scrollY y (scroll_events ys w2))))) \<and>
         \<not> isl (render_header w')"
proof -
  let ?c = "\<lparr>scrolled = next_ref w, mounted = [AttachScrollListener], unmounted = []\<rparr>"
  let ?w2 = "w\<lparr>window := Some (win\<lparr>listeners := listeners win @
              [\<lparr>ltype = ''scroll'', callback = ScrollHandler (next_fn w) (next_ref w),
                lcapture = False, lpassive = False, lonce = False\<rparr>]\<rparr>),
            refs := (refs w)(next_ref w := False),
            next_ref := Suc (next_ref w),
            next_fn := Suc (next_fn w)\<rparr>"
  have m: "mount_header w = Inr (?c, ?w2)"
    using assms by (rule mount_header_client)
  have "attached ?c ?w2"
    using assms(2) m by (rule mount_header_attached)
  then have "attached ?c (scroll_events ys ?w2)" for ys
    by (rule scroll_events_attached)
  then have "window (scroll_events ys ?w2) \<noteq> None" for ys
    by (auto elim: attachedD)
  then have h: "\<not> isl (scroll_handler (scrolled ?c) (set_scrollY y (scroll_events ys ?w2)))" for y ys
    by (auto simp: scroll_handler_def set_scrollY_def split: option.splits)
  have u: "unmount ?c ?w2 = Inr ?w2"
    by (simp add: unmount_nothing)
  show ?thesis
    using assms(1) h u by (simp add: m listeners_of_def render_header_ok)
qed

theorem mount_only_registers_listener_witness:
  "window (page 0) = Some \<lparr>scrollY = 0, listeners = []\<rparr> \<and> fresh_fns (page 0) \<and>
   mount_header (page 0) = Inr (first_header, mounted_page 0) \<and>
   listeners_of (mounted_page 0) =
     [\<lparr>ltype = ''scroll'', callback = ScrollHandler 0 0,
       lcapture = False, lpassive = False, lonce = False\<rparr>] \<and>
   map_option scrollY (window (mounted_page 0)) = Some 0 \<and>
   unmount first_header (mounted_page 0) = Inr (mounted_page 0) \<and>
   \<not> isl (scroll_handler 0 (set_scrollY 42 (scroll_events [7] (mounted_page 0)))) \<and>
   \<not> isl (render_header server)"
proof -
  have w: "window (page 0) = Some \<lparr>scrollY = 0, listeners = []\<rparr>"
    by (simp add: page_def)
  note t = mount_only_registers_listener [OF w fresh_fns_page [of 0], where w' = server]
  from t have "\<forall>y ys. \<not> isl (scroll_handler 0 (set_scrollY y (scroll_events ys (mounted_page 0))))"
    by (simp add: mount_header_page first_header_def)
  then have h: "\<not> isl (scroll_handler 0 (set_scrollY 42 (scroll_events [7] (mounted_page 0))))"
    by blast
  from t have "listeners_of (mounted_page 0) =
      [\<lparr>ltype = ''scroll'', callback = ScrollHandler 0 0,
        lcapture = False, lpassive = False, lonce = False\<rparr>] \<and>
    map_option scrollY (window (mounted_page 0)) = Some 0 \<and>
    unmount first_header (mounted_page 0) = Inr (mounted_page 0) \<and>
    \<not> isl (render_header server)"
    by (simp add: mount_header_page first_header_def) (simp add: page_def listeners_of_def)
  with h w fresh_fns_page [of 0] mount_header_page [of 0] show ?thesis
    by blast
qed

text \<open>
  Claim C7. A call of the scroll handler that returns \<open>w'\<close> changes nothing but the cell
  it closed over: \<open>w'\<close> is \<open>w\<close> with that one cell written, so the window (offset and
  listeners), both allocation counters and every other cell are as before. For the scroll
  event as a whole, whose handlers the browser calls one by one: the counters are as
  before, the offset is the one the browser set, a cell \<open>r'\<close> that no scroll listener
  closed over is as before, and the listener list is as before when no scroll listener
  was registered with \<open>once\<close>.
\<close>

theorem scroll_handler_frame:
  "(scroll_handler r w = Inr w' \<longrightarrow>
      w' = w\<lparr>refs := (refs w)(r := refs w' r)\<rparr> \<and> window w' = window w) \<and>
   next_ref (scroll_event y w) = next_ref w \<and>
   next_fn (scroll_event y w) = next_fn w \<and>
   map_option scrollY (window (scroll_event y w)) = map_option (\<lambda>win. y) (window w) \<and>
   (r' \<notin> set (map (captured \<circ> callback) (scroll_listeners w)) \<longrightarrow>
      refs (scroll_event y w) r' = refs w r') \<and>
   (\<not> list_ex lonce (scroll_listeners w) \<longrightarrow>
      listeners_of (scroll_event y w) = listeners_of w)"
proof -
  have "w' = w\<lparr>refs := (refs w)(r := refs w' r)\<rparr> \<and> window w' = window w"
    if "scroll_handler r w = Inr w'"
    using that by (auto simp: scroll_handler_def split: option.splits)
  then show ?thesis
    by (simp add: scroll_event_counters scroll_event_scrollY scroll_event_refs_other
        scroll_event_listeners)
qed

theorem scroll_handler_frame_witness:
  "scroll_handler 0 (mounted_page 350) =
     Inr ((mounted_page 350)\<lparr>refs := (\<lambda>_. False)(0 := True)\<rparr>) \<and>
   window ((mounted_page 350)\<lparr>refs := (\<lambda>_. False)(0 := True)\<rparr>) = window (mounted_page 350) \<and>
   map (captured \<circ> callback) (scroll_listeners (mounted_page 350)) = [0] \<and>
   \<not> list_ex lonce (scroll_listeners (mounted_page 350)) \<and>
   next_ref (scroll_event 20 (mounted_page 350)) = 1 \<and>
   next_fn (scroll_event 20 (mounted_page 350)) = 1 \<and>
   map_option scrollY (window (scroll_event 20 (mounted_page 350))) = Some 20 \<and>
   refs (scroll_event 20 (mounted_page 350)) 1 = False \<and>
   listeners_of (scroll_event 20 (mounted_page 350)) = listeners_of (mounted_page 350)"
proof -
  have h: "scroll_handler 0 (mounted_page 350) =
      Inr ((mounted_page 350)\<lparr>refs := (\<lambda>_. False)(0 := True)\<rparr>)"
    by (simp add: scroll_handler_def mounted_page_def)
  have s: "scroll_listeners (mounted_page 350) =
      [\<lparr>ltype = ''scroll'', callback = ScrollHandler 0 0,
        lcapture = False, lpassive = False, lonce = False\<rparr>]"
    by (simp add: scroll_listeners_def listeners_of_def mounted_page_def)
  have m: "next_ref (mounted_page 350) = 1" "next_fn (mounted_page 350) = 1"
    "refs (mounted_page 350) 1 = False" "window (mounted_page 350) \<noteq> None"
    by (simp_all add: mounted_page_def)
  from scroll_handler_frame [where r = 0 and w = "mounted_page 350"
      and w' = "(mounted_page 350)\<lparr>refs := (\<lambda>_. False)(0 := True)\<rparr>" and r' = 1 and y = 20]
    h s m
  show ?thesis by simp
qed

text \<open>
  Claim C8. The flag is false after the setup, and still false after the mount, whatever
  the scroll offset of the window is at that time: the mount does not read the offset.
\<close>

theorem scrolled_starts_false:
  assumes "mount_header w = Inr (c, w2)"
  shows "\<not> flag (fst (script_setup w)) (snd (script_setup w)) \<and> \<not> flag c w2"
  using assms
  by (auto simp: mount_header_def script_setup_eq mount_def mounted_hook_def flag_def
      split: option.splits)

theorem scrolled_starts_false_witness:
  "mount_header (page 350) = Inr (first_header, mounted_page 350) \<and>
   map_option scrollY (window (mounted_page 350)) = Some 350 \<and>
   \<not> flag (fst (script_setup (page 350))) (snd (script_setup (page 350))) \<and>
   \<not> flag first_header (mounted_page 350)"
  using scrolled_starts_false [OF mount_header_page [of 350]] mount_header_page [of 350]
  by (simp add: mounted_page_def)

text \<open>
  Claim C9. On windows that hold the component's listener, the flag after a non-empty
  sequence of scroll events depends on the offset of the last event only: two sequences
  with the same last offset give the same flag, from whatever states they start; and
  delivering an event a second time leaves the flag as the first delivery set it.
\<close>

theorem flag_follows_last_offset:
  assumes "attached c wa" and "attached c wb"
    and "ys \<noteq> []" and "zs \<noteq> []" and "last ys = last zs"
  shows "flag c (scroll_events ys wa) = flag c (scroll_events zs wb) \<and>
         flag c (scroll_event y (scroll_event y wa)) = flag c (scroll_event y wa)"
proof -
  have last_flag: "flag c (scroll_events xs w) = (0 < last xs)"
    if "attached c w" and "xs \<noteq> []" for xs w
  proof -
    from that(2) have "xs = butlast xs @ [last xs]" by simp
    then have "scroll_events xs w = scroll_event (last xs) (scroll_events (butlast xs) w)"
      by (metis scroll_events_snoc)
    moreover have "attached c (scroll_events (butlast xs) w)"
      using that(1) by (rule scroll_events_attached)
    ultimately show ?thesis by (simp add: scroll_event_flag)
  qed
  have "flag c (scroll_events ys wa) = flag c (scroll_events zs wb)"
    using assms by (simp add: last_flag)
  moreover have "flag c (scroll_event y (scroll_event y wa)) = flag c (scroll_event y wa)"
    using assms(1) by (simp add: scroll_event_flag scroll_event_attached)
  ultimately show ?thesis by simp
qed

theorem flag_follows_last_offset_witness:
  "attached first_header (mounted_page 0) \<and> attached first_header (mounted_page 500) \<and>
   [10, 0, 30 :: real] \<noteq> [] \<and> [30 :: real] \<noteq> [] \<and>
   last [10, 0, 30 :: real] = last [30] \<and>
   flag first_header (scroll_events [10, 0, 30] (mounted_page 0)) =
     flag first_header (scroll_events [30] (mounted_page 500)) \<and>
   flag first_header (scroll_event 30 (scroll_event 30 (mounted_page 0))) =
     flag first_header (scroll_event 30 (mounted_page 0))"
proof -
  have a: "attached first_header (mounted_page y)" for y
    by (simp add: attached_def listeners_of_def mounted_page_def first_header_def)
  have l: "last [10, 0, 30 :: real] = last [30]" by simp
  from flag_follows_last_offset [OF a [of 0] a [of 500] _ _ l, where y = 30] a l
  show ?thesis by simp
qed

text \<open>
  Claim C10. The exported configuration has development server port 4200, devtools
  enabled, \<^verbatim>\<open>@nuxt/ui\<close> as its only module, and one head script, with source
  \<^verbatim>\<open>https://cdn.tailwindcss.com\<close> and \<^verbatim>\<open>defer\<close> set.
\<close>

theorem nuxt_config_settings:
  "port (devServer nuxt_config_export) = 4200 \<and>
   enabled (devtools nuxt_config_export) \<and>
   modules nuxt_config_export = [''@nuxt/ui''] \<and>
   script (head (app nuxt_config_export)) =
     [\<lparr>src = ''https://cdn.tailwindcss.com'', defer_attr = True\<rparr>]"
  by (simp add: nuxt_config_export_def defineNuxtConfig_def)

end
